theory Spec2Isabelle
  imports Complex_Main "HOL-Library.Word"
begin

section \<open>Sparse parity training script: data model\<close>

text \<open>
  The development follows \<^verbatim>\<open>scripts/sparse-parity-v1.py\<close>. Python exceptions are
  values of type \<open>error\<close>; a function that can raise returns a sum with the error on
  the left.
\<close>

datatype error =
    AssertionError
  | ValueError
  | IndexError
  | ZeroDivisionError
  | UnboundLocalError
  | RuntimeError

subsection \<open>Random sources\<close>

text \<open>
  The three generators the script seeds (\<^verbatim>\<open>torch\<close>, \<^verbatim>\<open>random\<close>, \<^verbatim>\<open>numpy\<close>) belong to
  external libraries. A generator state is the infinite sequence of raw numbers it will
  still deliver; a draw reads a prefix and advances. Every outcome the library can
  produce within its documented range is the reading of some sequence, so a statement
  for all sequences covers all draws.
\<close>

type_synonym tape = "nat \<Rightarrow> nat"

definition advance :: "nat \<Rightarrow> tape \<Rightarrow> tape" where
  "advance m g = (\<lambda>i. g (i + m))"

text \<open>\<^verbatim>\<open>torch.randint(low=0, high=2, size=(sz, n))\<close>: a matrix of \<open>sz\<close> rows of \<open>n\<close> bits.\<close>

definition randint :: "tape \<Rightarrow> nat \<Rightarrow> nat \<Rightarrow> nat list list \<times> tape" where
  "randint g sz n =
     (map (\<lambda>r. map (\<lambda>c. g (r * n + c) mod 2) [0..<n]) [0..<sz], advance (sz * n) g)"

subsection \<open>Batch synthesis: \<^verbatim>\<open>get_batch\<close>\<close>

text \<open>
  Tensor entries are the numbers 0 and 1 (stored by the script as floats, which represent
  both exactly). Subtask positions, task codes and sizes are natural numbers: the callers
  pass positions from \<^verbatim>\<open>range(n)\<close>, histogram keys and counts.
\<close>

text \<open>\<^verbatim>\<open>torch.sum(x[:, S], dim=1) % 2\<close> for one row of \<open>x\<close>.\<close>

definition row_parity :: "nat list \<Rightarrow> nat list \<Rightarrow> nat" where
  "row_parity S row = sum_list (map (\<lambda>j. row ! j) S) mod 2"

text \<open>One row of \<^verbatim>\<open>x_task_code\<close> after \<^verbatim>\<open>x_task_code[:, code] = 1\<close>.\<close>

definition task_code_row :: "nat \<Rightarrow> nat \<Rightarrow> nat list" where
  "task_code_row n_tasks code = (replicate n_tasks 0)[code := 1]"

text \<open>The slice assignment \<^verbatim>\<open>batch[start_i:start_i+len(rows)] = rows\<close>.\<close>

definition assign_rows :: "'a list \<Rightarrow> nat \<Rightarrow> 'a list \<Rightarrow> 'a list" where
  "assign_rows batch start_i rows =
     take start_i batch @ rows @ drop (start_i + length rows) batch"

text \<open>
  The loop over \<^verbatim>\<open>zip(Ss, sizes, codes)\<close>. Indexing a column outside the tensor raises
  \<^verbatim>\<open>IndexError\<close>; assigning a block that does not fit the slice raises
  \<^verbatim>\<open>RuntimeError\<close>.
\<close>

fun get_batch_loop ::
  "nat \<Rightarrow> nat \<Rightarrow> (nat list \<times> nat \<times> nat) list \<Rightarrow> nat \<Rightarrow> nat list list \<Rightarrow> nat list \<Rightarrow> tape
     \<Rightarrow> error + (nat list list \<times> nat list \<times> tape)" where
  "get_batch_loop n_tasks n [] start_i batch_x batch_y g = Inr (batch_x, batch_y, g)"
| "get_batch_loop n_tasks n ((S, sz, code) # rest) start_i batch_x batch_y g =
     (if 0 < sz then
        (case randint g sz n of (x, g') \<Rightarrow>
           if \<not> list_all (\<lambda>j. j < n) S then Inl IndexError
           else if \<not> code < n_tasks then Inl IndexError
           else if length batch_x < start_i + sz then Inl RuntimeError
           else get_batch_loop n_tasks n rest (start_i + sz)
                  (assign_rows batch_x start_i (map (\<lambda>row. task_code_row n_tasks code @ row) x))
                  (assign_rows batch_y start_i (map (row_parity S) x)) g')
      else get_batch_loop n_tasks n rest start_i batch_x batch_y g)"

definition get_batch ::
  "nat \<Rightarrow> nat \<Rightarrow> nat list list \<Rightarrow> nat list \<Rightarrow> nat list \<Rightarrow> tape
     \<Rightarrow> error + (nat list list \<times> nat list \<times> tape)" where
  "get_batch n_tasks n Ss codes sizes g =
     get_batch_loop n_tasks n (zip Ss (zip sizes codes)) 0
       (replicate (sum_list sizes) (replicate (n_tasks + n) 0))
       (replicate (sum_list sizes) 0) g"

subsection \<open>Task-mixture sampling\<close>

text \<open>
  \<^verbatim>\<open>scipy.stats.zipfian.rvs(alpha, n_tasks, size=m)\<close>: \<open>m\<close> ranks, each in \<open>1..n_tasks\<close>.
  The library rejects a negative exponent and an empty support.
\<close>

definition zipfian_rvs :: "tape \<Rightarrow> real \<Rightarrow> nat \<Rightarrow> nat \<Rightarrow> error + (nat list \<times> tape)" where
  "zipfian_rvs g alpha n_tasks m =
     (if alpha < 0 \<or> n_tasks = 0 then Inl ValueError
      else Inr (map (\<lambda>i. 1 + g i mod n_tasks) [0..<m], advance m g))"

text \<open>
  \<^verbatim>\<open>hist[s] += 1\<close> on a \<^verbatim>\<open>defaultdict(int)\<close>. The dictionary keeps its keys in the order
  of first insertion, so it is an association list.
\<close>

fun hist_incr :: "(nat \<times> nat) list \<Rightarrow> nat \<Rightarrow> (nat \<times> nat) list" where
  "hist_incr [] s = [(s, 1)]"
| "hist_incr ((c, m) # h) s = (if c = s then (c, m + 1) # h else (c, m) # hist_incr h s)"

definition histogram :: "nat list \<Rightarrow> (nat \<times> nat) list" where
  "histogram samples = foldl hist_incr [] samples"

text \<open>\<^verbatim>\<open>[Ss[c] for c in codes]\<close>: a list index past the end raises \<^verbatim>\<open>IndexError\<close>.\<close>

definition select_Ss :: "nat list list \<Rightarrow> nat list \<Rightarrow> error + nat list list" where
  "select_Ss Ss codes =
     (if list_all (\<lambda>c. c < length Ss) codes then Inr (map (\<lambda>c. Ss ! c) codes)
      else Inl IndexError)"

text \<open>
  The draw of a batch composition, as written twice in \<^verbatim>\<open>run\<close> (for the evaluation
  batch and for the training batch): \<^verbatim>\<open>samples\<close>, \<^verbatim>\<open>hist\<close>, \<^verbatim>\<open>codes\<close>,
  \<^verbatim>\<open>sizes\<close>, \<^verbatim>\<open>batch_Ss\<close>.
\<close>

definition batch_composition ::
  "nat \<Rightarrow> real \<Rightarrow> nat list list \<Rightarrow> nat \<Rightarrow> tape
     \<Rightarrow> error + (nat list \<times> nat list \<times> nat list list \<times> tape)" where
  "batch_composition n_tasks alpha Ss m g =
     (case zipfian_rvs g alpha n_tasks m of
        Inl e \<Rightarrow> Inl e
      | Inr (samples, g') \<Rightarrow>
          (let hist = histogram samples; codes = map fst hist; sizes = map snd hist in
           case select_Ss Ss codes of
             Inl e \<Rightarrow> Inl e
           | Inr batch_Ss \<Rightarrow> Inr (codes, sizes, batch_Ss, g')))"

text \<open>The composition followed by the call of \<^verbatim>\<open>get_batch\<close>.\<close>

definition mixture_batch ::
  "nat \<Rightarrow> nat \<Rightarrow> real \<Rightarrow> nat list list \<Rightarrow> nat \<Rightarrow> tape \<Rightarrow> tape
     \<Rightarrow> error + (nat list list \<times> nat list \<times> tape \<times> tape)" where
  "mixture_batch n_tasks n alpha Ss m np_g torch_g =
     (case batch_composition n_tasks alpha Ss m np_g of
        Inl e \<Rightarrow> Inl e
      | Inr (codes, sizes, batch_Ss, np_g') \<Rightarrow>
          (case get_batch n_tasks n batch_Ss codes sizes torch_g of
             Inl e \<Rightarrow> Inl e
           | Inr (x, y, torch_g') \<Rightarrow> Inr (x, y, np_g', torch_g')))"

subsection \<open>Subtask definition\<close>

text \<open>
  \<^verbatim>\<open>random.sample(range(n), k)\<close>: \<open>k\<close> positions chosen without replacement, in the
  order chosen; \<^verbatim>\<open>ValueError\<close> when the sample is larger than the population.
\<close>

fun sample_pool :: "tape \<Rightarrow> nat list \<Rightarrow> nat \<Rightarrow> nat list" where
  "sample_pool g pool 0 = []"
| "sample_pool g pool (Suc k) =
     (let j = g 0 mod length pool
      in pool ! j # sample_pool (advance 1 g) (take j pool @ drop (Suc j) pool) k)"

definition random_sample :: "tape \<Rightarrow> nat \<Rightarrow> nat \<Rightarrow> error + (nat list \<times> tape)" where
  "random_sample g n k =
     (if n < k then Inl ValueError else Inr (sample_pool g [0..<n] k, advance k g))"

text \<open>\<^verbatim>\<open>[random.sample(range(n), k) for _ in range(n_tasks)]\<close>\<close>

fun make_Ss :: "tape \<Rightarrow> nat \<Rightarrow> nat \<Rightarrow> nat \<Rightarrow> error + (nat list list \<times> tape)" where
  "make_Ss g n k 0 = Inr ([], g)"
| "make_Ss g n k (Suc m) =
     (case random_sample g n k of
        Inl e \<Rightarrow> Inl e
      | Inr (S, g') \<Rightarrow>
          (case make_Ss g' n k m of
             Inl e \<Rightarrow> Inl e
           | Inr (Ss, g'') \<Rightarrow> Inr (S # Ss, g'')))"

subsection \<open>The learner\<close>

datatype activation = ReLU | Tanh | Sigmoid

datatype layer = Linear nat nat | Activation activation

text \<open>The chain of comparisons on the activation identifier; \<open>None\<close> is the final \<^verbatim>\<open>else\<close>.\<close>

definition activation_class :: "string \<Rightarrow> activation option" where
  "activation_class name =
     (if name = ''ReLU'' then Some ReLU
      else if name = ''Tanh'' then Some Tanh
      else if name = ''Sigmoid'' then Some Sigmoid
      else None)"

text \<open>The body of \<^verbatim>\<open>for i in range(depth)\<close>, appending to \<^verbatim>\<open>layers\<close>.\<close>

definition add_layer :: "nat \<Rightarrow> nat \<Rightarrow> nat \<Rightarrow> nat \<Rightarrow> activation \<Rightarrow> layer list \<Rightarrow> nat \<Rightarrow> layer list" where
  "add_layer n_tasks n width depth activation_fn layers i =
     (if i = 0 then layers @ [Linear (n_tasks + n) width, Activation activation_fn]
      else if i = depth - 1 then layers @ [Linear width 2]
      else layers @ [Linear width width, Activation activation_fn])"

definition build_layers :: "nat \<Rightarrow> nat \<Rightarrow> nat \<Rightarrow> nat \<Rightarrow> activation \<Rightarrow> layer list" where
  "build_layers n_tasks n width depth activation_fn =
     foldl (add_layer n_tasks n width depth activation_fn) [] [0..<depth]"

text \<open>\<^verbatim>\<open>t.numel()\<close> summed over the parameters of one layer: weight matrix and bias.\<close>

fun numel :: "layer \<Rightarrow> nat" where
  "numel (Linear a b) = a * b + b"
| "numel (Activation f) = 0"

text \<open>
  The operations of the numerical libraries, taken as parameters: \<open>'m\<close> is the learner
  state (parameters and optimizer moments), \<open>'l\<close> a tensor of logits, \<open>'v\<close> a
  floating-point scalar.
\<close>

record ('m, 'l, 'v) library =
  manual_seed :: "32 word \<Rightarrow> tape"
  random_seed :: "32 word \<Rightarrow> tape"
  np_random_seed :: "32 word \<Rightarrow> tape"
  sequential :: "layer list \<Rightarrow> tape \<Rightarrow> 'm \<times> tape"
  forward :: "'m \<Rightarrow> nat list list \<Rightarrow> 'l"
  argmax :: "'l \<Rightarrow> nat list"
  loss_fn :: "'l \<Rightarrow> nat list \<Rightarrow> 'v"
  optimizer_step :: "real \<Rightarrow> 'm \<Rightarrow> nat list list \<Rightarrow> nat list \<Rightarrow> 'm"
  true_div :: "nat \<Rightarrow> nat \<Rightarrow> 'v"

subsection \<open>Configuration and recorded output\<close>

text \<open>
  The parameters of \<^verbatim>\<open>run\<close>. The seed is a 32-bit number, the range the numpy
  generator accepts. \<^verbatim>\<open>device\<close>, \<^verbatim>\<open>dtype\<close>, \<^verbatim>\<open>verbose\<close> and the logger do not
  influence any value modelled here.
\<close>

record config =
  cfg_n_tasks :: nat
  cfg_n :: nat
  cfg_k :: nat
  cfg_alpha :: real
  cfg_width :: nat
  cfg_depth :: nat
  cfg_activation :: string
  cfg_test_points :: nat
  cfg_test_points_per_task :: nat
  cfg_steps :: nat
  cfg_batch_size :: nat
  cfg_lr :: real
  cfg_log_freq :: nat
  cfg_seed :: "32 word"

text \<open>
  The defaults of \<^verbatim>\<open>cfg()\<close>, as a function of the number of steps and the seed:
  \<^verbatim>\<open>log_freq = steps // 1000\<close> is computed from whichever \<^verbatim>\<open>steps\<close> is in force.
\<close>

definition cfg :: "nat \<Rightarrow> 32 word \<Rightarrow> config" where
  "cfg steps sd =
     \<lparr>cfg_n_tasks = 100, cfg_n = 50, cfg_k = 3, cfg_alpha = 3 / 2,
      cfg_width = 100, cfg_depth = 2, cfg_activation = ''ReLU'',
      cfg_test_points = 30000, cfg_test_points_per_task = 1000,
      cfg_steps = steps, cfg_batch_size = 10000, cfg_lr = 1 / 1000,
      cfg_log_freq = steps div 1000, cfg_seed = sd\<rparr>"

text \<open>
  The dictionary \<^verbatim>\<open>ex.info\<close>: a key is absent (\<open>None\<close>) until the script assigns it.
  The two \<^verbatim>\<open>defaultdict(list)\<close> values are association lists from subtask index to
  series.
\<close>

record 'v info =
  info_P :: "nat option"
  info_D :: "nat option"
  info_Ss :: "nat list list option"
  log_steps :: "nat list option"
  accuracies :: "'v list option"
  losses :: "'v list option"
  losses_subtasks :: "(nat \<times> 'v list) list option"
  accuracies_subtasks :: "(nat \<times> 'v list) list option"

definition empty_info :: "'v info" where
  "empty_info =
     \<lparr>info_P = None, info_D = None, info_Ss = None, log_steps = None, accuracies = None,
      losses = None, losses_subtasks = None, accuracies_subtasks = None\<rparr>"

text \<open>\<^verbatim>\<open>ex.info[key].append(v)\<close>\<close>

definition append_to :: "'a list option \<Rightarrow> 'a \<Rightarrow> 'a list option" where
  "append_to series v = map_option (\<lambda>xs. xs @ [v]) series"

text \<open>\<^verbatim>\<open>ex.info[key][i].append(v)\<close> on a \<^verbatim>\<open>defaultdict(list)\<close>\<close>

fun dd_append :: "(nat \<times> 'a list) list \<Rightarrow> nat \<Rightarrow> 'a \<Rightarrow> (nat \<times> 'a list) list" where
  "dd_append [] i v = [(i, [v])]"
| "dd_append ((j, xs) # d) i v = (if j = i then (j, xs @ [v]) # d else (j, xs) # dd_append d i v)"

subsection \<open>The state of a run\<close>

text \<open>The three ambient generators.\<close>

record generators =
  torch_gen :: tape
  py_gen :: tape
  np_gen :: tape

text \<open>
  The local variables of \<^verbatim>\<open>run\<close> that the step loop reads and writes. \<^verbatim>\<open>loss\<close> is
  unbound (\<open>None\<close>) until a training step assigns it.
\<close>

record ('m, 'v) locals = generators +
  mlp :: 'm
  loss :: "'v option"
  info :: "'v info"

text \<open>A raised exception ends the run; what \<^verbatim>\<open>ex.info\<close> held at that moment is kept.\<close>

type_synonym ('m, 'v) outcome = "error \<times> 'v info + ('m, 'v) locals"

definition outcome_info :: "('m, 'v) outcome \<Rightarrow> 'v info" where
  "outcome_info r = (case r of Inl (e, i) \<Rightarrow> i | Inr st \<Rightarrow> info st)"

text \<open>\<^verbatim>\<open>torch.sum(labels_i_pred == y_i).item()\<close>\<close>

definition count_equal :: "nat list \<Rightarrow> nat list \<Rightarrow> nat" where
  "count_equal labels_pred y = length (filter (\<lambda>(a, b). a = b) (zip labels_pred y))"

subsection \<open>Evaluation\<close>

text \<open>
  The per-subtask probes: the loop \<^verbatim>\<open>for i in range(n_tasks)\<close> inside an evaluation
  event. Each probe appends the loss, then the accuracy, whose division raises on a zero
  denominator.
\<close>

fun eval_subtasks ::
  "('m, 'l, 'v) library \<Rightarrow> config \<Rightarrow> nat list list \<Rightarrow> nat list \<Rightarrow> ('m, 'v) locals
     \<Rightarrow> ('m, 'v) outcome" where
  "eval_subtasks L c Ss [] st = Inr st"
| "eval_subtasks L c Ss (i # rest) st =
     (if \<not> i < length Ss then Inl (IndexError, info st)
      else
        (case get_batch (cfg_n_tasks c) (cfg_n c) [Ss ! i] [i] [cfg_test_points_per_task c]
                (torch_gen st) of
           Inl e \<Rightarrow> Inl (e, info st)
         | Inr (x_i, y_i, torch_g) \<Rightarrow>
             (let y_i_pred = forward L (mlp st) x_i;
                  info1 = (info st)\<lparr>losses_subtasks :=
                             map_option (\<lambda>d. dd_append d i (loss_fn L y_i_pred y_i))
                               (losses_subtasks (info st))\<rparr>;
                  labels_i_pred = argmax L y_i_pred
              in if cfg_test_points_per_task c = 0 then Inl (ZeroDivisionError, info1)
                 else eval_subtasks L c Ss rest
                        (st\<lparr>torch_gen := torch_g,
                            info := info1\<lparr>accuracies_subtasks :=
                               map_option
                                 (\<lambda>d. dd_append d i
                                    (true_div L (count_equal labels_i_pred y_i)
                                       (cfg_test_points_per_task c)))
                                 (accuracies_subtasks info1)\<rparr>\<rparr>))))"

text \<open>
  One evaluation event: the body of \<^verbatim>\<open>if step % log_freq == 0\<close>. The aggregate loss
  entry is read from the local variable \<^verbatim>\<open>loss\<close>.
\<close>

definition evaluate ::
  "('m, 'l, 'v) library \<Rightarrow> config \<Rightarrow> nat list list \<Rightarrow> ('m, 'v) locals \<Rightarrow> ('m, 'v) outcome" where
  "evaluate L c Ss st =
     (case mixture_batch (cfg_n_tasks c) (cfg_n c) (cfg_alpha c) Ss (cfg_test_points c)
             (np_gen st) (torch_gen st) of
        Inl e \<Rightarrow> Inl (e, info st)
      | Inr (x_i, y_i, np_g, torch_g) \<Rightarrow>
          (let y_i_pred = forward L (mlp st) x_i;
               labels_i_pred = argmax L y_i_pred
           in if cfg_test_points c = 0 then Inl (ZeroDivisionError, info st)
              else
                (let info1 = (info st)\<lparr>accuracies :=
                                append_to (accuracies (info st))
                                  (true_div L (count_equal labels_i_pred y_i) (cfg_test_points c))\<rparr>
                 in case loss st of
                      None \<Rightarrow> Inl (UnboundLocalError, info1)
                    | Some l \<Rightarrow>
                        eval_subtasks L c Ss [0..<cfg_n_tasks c]
                          (st\<lparr>np_gen := np_g, torch_gen := torch_g,
                              info := info1\<lparr>losses := append_to (losses info1) l\<rparr>\<rparr>))))"

subsection \<open>Training\<close>

text \<open>The part of the loop body after the evaluation: one optimisation step.\<close>

definition train_step ::
  "('m, 'l, 'v) library \<Rightarrow> config \<Rightarrow> nat list list \<Rightarrow> ('m, 'v) locals \<Rightarrow> ('m, 'v) outcome" where
  "train_step L c Ss st =
     (case mixture_batch (cfg_n_tasks c) (cfg_n c) (cfg_alpha c) Ss (cfg_batch_size c)
             (np_gen st) (torch_gen st) of
        Inl e \<Rightarrow> Inl (e, info st)
      | Inr (x, y_target, np_g, torch_g) \<Rightarrow>
          (let y_pred = forward L (mlp st) x
           in Inr (st\<lparr>np_gen := np_g, torch_gen := torch_g,
                      loss := Some (loss_fn L y_pred y_target),
                      mlp := optimizer_step L (cfg_lr c) (mlp st) x y_target\<rparr>)))"

text \<open>The body of \<^verbatim>\<open>for step in range(steps)\<close>; the modulus raises on a zero period.\<close>

definition loop_body ::
  "('m, 'l, 'v) library \<Rightarrow> config \<Rightarrow> nat list list \<Rightarrow> nat \<Rightarrow> ('m, 'v) locals \<Rightarrow> ('m, 'v) outcome" where
  "loop_body L c Ss step st =
     (if cfg_log_freq c = 0 then Inl (ZeroDivisionError, info st)
      else
        (case (if step mod cfg_log_freq c = 0 then evaluate L c Ss st else Inr st) of
           Inl e \<Rightarrow> Inl e
         | Inr st1 \<Rightarrow> train_step L c Ss st1))"

fun train_loop ::
  "('m, 'l, 'v) library \<Rightarrow> config \<Rightarrow> nat list list \<Rightarrow> nat list \<Rightarrow> ('m, 'v) locals
     \<Rightarrow> ('m, 'v) outcome" where
  "train_loop L c Ss [] st = Inr st"
| "train_loop L c Ss (step # rest) st =
     (case loop_body L c Ss step st of
        Inl e \<Rightarrow> Inl e
      | Inr st1 \<Rightarrow> train_loop L c Ss rest st1)"

subsection \<open>The run\<close>

text \<open>The three seeding calls at the head of \<^verbatim>\<open>run\<close>.\<close>

definition seed_generators :: "('m, 'l, 'v) library \<Rightarrow> 32 word \<Rightarrow> generators \<Rightarrow> generators" where
  "seed_generators L sd gens =
     gens\<lparr>torch_gen := manual_seed L sd, py_gen := random_seed L sd, np_gen := np_random_seed L sd\<rparr>"

text \<open>
  Everything before the step loop: seeding, the activation check, the model, \<^verbatim>\<open>P\<close> and
  \<^verbatim>\<open>D\<close>, the Subtask Set, the empty metric series. The optimizer state is part of the
  learner state \<open>'m\<close>.
\<close>

definition run_setup ::
  "('m, 'l, 'v) library \<Rightarrow> config \<Rightarrow> generators
     \<Rightarrow> error \<times> 'v info + nat list list \<times> ('m, 'v) locals" where
  "run_setup L c gens =
     (let gens1 = seed_generators L (cfg_seed c) gens
      in case activation_class (cfg_activation c) of
           None \<Rightarrow> Inl (AssertionError, empty_info)
         | Some activation_fn \<Rightarrow>
             (let layers = build_layers (cfg_n_tasks c) (cfg_n c) (cfg_width c) (cfg_depth c)
                             activation_fn
              in case sequential L layers (torch_gen gens1) of
                   (m, torch_g) \<Rightarrow>
                     (let info1 = empty_info\<lparr>info_P := Some (sum_list (map numel layers)),
                                    info_D := Some (cfg_steps c * cfg_batch_size c)\<rparr>
                      in case make_Ss (py_gen gens1) (cfg_n c) (cfg_k c) (cfg_n_tasks c) of
                           Inl e \<Rightarrow> Inl (e, info1)
                         | Inr (Ss, py_g) \<Rightarrow>
                             Inr (Ss,
                                  \<lparr>torch_gen = torch_g, py_gen = py_g, np_gen = np_gen gens1,
                                   mlp = m, loss = None,
                                   info = info1\<lparr>info_Ss := Some Ss, log_steps := Some [],
                                            accuracies := Some [], losses := Some [],
                                            losses_subtasks := Some [],
                                            accuracies_subtasks := Some []\<rparr>\<rparr>))))"

definition run ::
  "('m, 'l, 'v) library \<Rightarrow> config \<Rightarrow> generators \<Rightarrow> ('m, 'v) outcome" where
  "run L c gens =
     (case run_setup L c gens of
        Inl e \<Rightarrow> Inl e
      | Inr (Ss, st) \<Rightarrow> train_loop L c Ss [0..<cfg_steps c] st)"

text \<open>
  A small instance of the library operations, used to run the model on concrete inputs:
  the generators count upwards from the seed, the learner state is the number of
  optimisation steps taken, every prediction is the label 0, and a scalar is a pair of
  natural numbers.
\<close>

definition counting_library :: "(nat, nat, nat \<times> nat) library" where
  "counting_library =
     \<lparr>manual_seed = (\<lambda>sd i. unat sd + i),
      random_seed = (\<lambda>sd i. unat sd + i),
      np_random_seed = (\<lambda>sd i. unat sd + i),
      sequential = (\<lambda>layers g. (0, g)),
      forward = (\<lambda>m x. length x),
      argmax = (\<lambda>l. replicate l 0),
      loss_fn = (\<lambda>l y. (sum_list y, l)),
      optimizer_step = (\<lambda>lr m x y. Suc m),
      true_div = (\<lambda>a b. (a, b))\<rparr>"

section \<open>Batch synthesis\<close>

lemma randint_shape:
  "randint g sz n = (x, g') \<Longrightarrow> length x = sz \<and> (\<forall>r \<in> set x. length r = n \<and> set r \<subseteq> {0, 1})"
  by (auto simp: randint_def)

lemma nth_assign_rows_before:
  "i < start_i \<Longrightarrow> start_i \<le> length batch \<Longrightarrow> assign_rows batch start_i rows ! i = batch ! i"
  by (simp add: assign_rows_def nth_append)

lemma nth_assign_rows_in:
  "start_i \<le> i \<Longrightarrow> i < start_i + length rows \<Longrightarrow> start_i \<le> length batch
    \<Longrightarrow> assign_rows batch start_i rows ! i = rows ! (i - start_i)"
  by (auto simp: assign_rows_def nth_append)

lemma length_assign_rows:
  "start_i + length rows \<le> length batch \<Longrightarrow> length (assign_rows batch start_i rows) = length batch"
  by (simp add: assign_rows_def)

lemma get_batch_loop_length:
  "get_batch_loop n_tasks n trs start_i bx by g = Inr (bx', by', g') \<Longrightarrow> length by = length bx
   \<Longrightarrow> length bx' = length bx \<and> length by' = length bx"
proof (induction trs arbitrary: start_i bx "by" g)
  case Nil
  then show ?case by simp
next
  case (Cons tr trs)
  obtain S sz code where tr: "tr = (S, sz, code)" by (cases tr) auto
  show ?case
  proof (cases "0 < sz")
    case False
    with Cons tr show ?thesis by simp
  next
    case True
    obtain x g1 where r: "randint g sz n = (x, g1)" by (cases "randint g sz n") auto
    have lx: "length x = sz" using randint_shape[OF r] by simp
    from Cons.prems(1) tr True r
    have ok: "start_i + sz \<le> length bx"
      and rec: "get_batch_loop n_tasks n trs (start_i + sz)
                  (assign_rows bx start_i (map (\<lambda>row. task_code_row n_tasks code @ row) x))
                  (assign_rows by start_i (map (row_parity S) x)) g1 = Inr (bx', by', g')"
      by (auto split: if_splits)
    have l1: "length (assign_rows bx start_i (map (\<lambda>row. task_code_row n_tasks code @ row) x)) = length bx"
      using ok lx by (simp add: assign_rows_def)
    have l2: "length (assign_rows by start_i (map (row_parity S) x)) = length bx"
      using ok lx Cons.prems(2) by (simp add: assign_rows_def)
    from Cons.IH[OF rec] l1 l2 show ?thesis by simp
  qed
qed

lemma get_batch_loop_rows:
  "get_batch_loop n_tasks n trs start_i bx by g = Inr (bx', by', g') \<Longrightarrow> length by = length bx
   \<Longrightarrow> (\<forall>i < start_i. i < length bx \<longrightarrow> bx' ! i = bx ! i \<and> by' ! i = by ! i) \<and>
       (\<forall>i. start_i \<le> i \<and> i < start_i + sum_list (map (fst \<circ> snd) trs) \<longrightarrow>
          (\<exists>j < length trs.
              start_i + sum_list (map (fst \<circ> snd) (take j trs)) \<le> i
            \<and> i < start_i + sum_list (map (fst \<circ> snd) (take (Suc j) trs))
            \<and> snd (snd (trs ! j)) < n_tasks \<and> list_all (\<lambda>p. p < n) (fst (trs ! j))
            \<and> (\<exists>row. length row = n \<and> set row \<subseteq> {0, 1}
                  \<and> bx' ! i = task_code_row n_tasks (snd (snd (trs ! j))) @ row
                  \<and> by' ! i = row_parity (fst (trs ! j)) row)))"
proof (induction trs arbitrary: start_i bx "by" g)
  case Nil
  then show ?case by simp
next
  case (Cons tr trs)
  obtain S sz code where tr: "tr = (S, sz, code)" by (cases tr) auto
  show ?case
  proof (cases "0 < sz")
    case False
    with Cons.prems tr have rec: "get_batch_loop n_tasks n trs start_i bx by g = Inr (bx', by', g')"
      by simp
    note IH = Cons.IH[OF rec Cons.prems(2)]
    have sz0: "sz = 0" using False by simp
    show ?thesis
    proof (rule conjI; intro allI impI)
      fix i assume "i < start_i" "i < length bx"
      with IH show "bx' ! i = bx ! i \<and> by' ! i = by ! i" by blast
    next
      fix i assume a: "start_i \<le> i \<and> i < start_i + sum_list (map (fst \<circ> snd) (tr # trs))"
      then have "start_i \<le> i \<and> i < start_i + sum_list (map (fst \<circ> snd) trs)"
        using tr sz0 by simp
      with IH obtain j where j: "j < length trs"
        "start_i + sum_list (map (fst \<circ> snd) (take j trs)) \<le> i"
        "i < start_i + sum_list (map (fst \<circ> snd) (take (Suc j) trs))"
        "snd (snd (trs ! j)) < n_tasks" "list_all (\<lambda>p. p < n) (fst (trs ! j))"
        "\<exists>row. length row = n \<and> set row \<subseteq> {0, 1}
                  \<and> bx' ! i = task_code_row n_tasks (snd (snd (trs ! j))) @ row
                  \<and> by' ! i = row_parity (fst (trs ! j)) row"
        by blast
      show "\<exists>j<length (tr # trs).
            start_i + sum_list (map (fst \<circ> snd) (take j (tr # trs))) \<le> i \<and>
            i < start_i + sum_list (map (fst \<circ> snd) (take (Suc j) (tr # trs))) \<and>
            snd (snd ((tr # trs) ! j)) < n_tasks \<and> list_all (\<lambda>p. p < n) (fst ((tr # trs) ! j)) \<and>
            (\<exists>row. length row = n \<and> set row \<subseteq> {0, 1} \<and>
                   bx' ! i = task_code_row n_tasks (snd (snd ((tr # trs) ! j))) @ row \<and>
                   by' ! i = row_parity (fst ((tr # trs) ! j)) row)"
        using j tr sz0 by (intro exI[of _ "Suc j"]) simp
    qed
  next
    case True
    obtain x g1 where r: "randint g sz n = (x, g1)" by (cases "randint g sz n") auto
    have lx: "length x = sz" and xrows: "\<forall>r \<in> set x. length r = n \<and> set r \<subseteq> {0, 1}"
      using randint_shape[OF r] by simp_all
    define bx1 where "bx1 = assign_rows bx start_i (map (\<lambda>row. task_code_row n_tasks code @ row) x)"
    define by1 where "by1 = assign_rows by start_i (map (row_parity S) x)"
    from Cons.prems(1) tr True r
    have ok: "start_i + sz \<le> length bx"
      and valid: "code < n_tasks" "list_all (\<lambda>p. p < n) S"
      and rec: "get_batch_loop n_tasks n trs (start_i + sz) bx1 by1 g1 = Inr (bx', by', g')"
      by (auto simp: bx1_def by1_def split: if_splits)
    have l1: "length bx1 = length bx" and l2: "length by1 = length bx"
      using ok lx Cons.prems(2) by (simp_all add: bx1_def by1_def length_assign_rows)
    have l12: "length by1 = length bx1" using l1 l2 by simp
    have IH: "(\<forall>i < start_i + sz. i < length bx1 \<longrightarrow> bx' ! i = bx1 ! i \<and> by' ! i = by1 ! i) \<and>
       (\<forall>i. start_i + sz \<le> i \<and> i < start_i + sz + sum_list (map (fst \<circ> snd) trs) \<longrightarrow>
          (\<exists>j < length trs.
              start_i + sz + sum_list (map (fst \<circ> snd) (take j trs)) \<le> i
            \<and> i < start_i + sz + sum_list (map (fst \<circ> snd) (take (Suc j) trs))
            \<and> snd (snd (trs ! j)) < n_tasks \<and> list_all (\<lambda>p. p < n) (fst (trs ! j))
            \<and> (\<exists>row. length row = n \<and> set row \<subseteq> {0, 1}
                  \<and> bx' ! i = task_code_row n_tasks (snd (snd (trs ! j))) @ row
                  \<and> by' ! i = row_parity (fst (trs ! j)) row)))"
      by (rule Cons.IH[OF rec l12])
    show ?thesis
    proof (rule conjI; intro allI impI)
      fix i assume i: "i < start_i" "i < length bx"
      then have "bx' ! i = bx1 ! i \<and> by' ! i = by1 ! i" using IH l1 by simp
      moreover have "bx1 ! i = bx ! i" "by1 ! i = by ! i"
        using i ok Cons.prems(2) by (simp_all add: bx1_def by1_def nth_assign_rows_before)
      ultimately show "bx' ! i = bx ! i \<and> by' ! i = by ! i" by simp
    next
      fix i assume a: "start_i \<le> i \<and> i < start_i + sum_list (map (fst \<circ> snd) (tr # trs))"
      show "\<exists>j<length (tr # trs).
            start_i + sum_list (map (fst \<circ> snd) (take j (tr # trs))) \<le> i \<and>
            i < start_i + sum_list (map (fst \<circ> snd) (take (Suc j) (tr # trs))) \<and>
            snd (snd ((tr # trs) ! j)) < n_tasks \<and> list_all (\<lambda>p. p < n) (fst ((tr # trs) ! j)) \<and>
            (\<exists>row. length row = n \<and> set row \<subseteq> {0, 1} \<and>
                   bx' ! i = task_code_row n_tasks (snd (snd ((tr # trs) ! j))) @ row \<and>
                   by' ! i = row_parity (fst ((tr # trs) ! j)) row)"
      proof (cases "i < start_i + sz")
        case True
        then have "bx' ! i = bx1 ! i \<and> by' ! i = by1 ! i" using IH l1 ok by simp
        moreover have rel: "i - start_i < length x" using a True lx by auto
        moreover have "bx1 ! i = task_code_row n_tasks code @ x ! (i - start_i)"
          "by1 ! i = row_parity S (x ! (i - start_i))"
          using a True ok lx Cons.prems(2) rel by (simp_all add: bx1_def by1_def nth_assign_rows_in)
        moreover have "length (x ! (i - start_i)) = n \<and> set (x ! (i - start_i)) \<subseteq> {0, 1}"
          using xrows rel by simp
        ultimately show ?thesis
          using a True tr valid by (intro exI[of _ 0]) auto
      next
        case False
        then have "start_i + sz \<le> i \<and> i < start_i + sz + sum_list (map (fst \<circ> snd) trs)"
          using a tr by simp
        with IH obtain j where j: "j < length trs"
          "start_i + sz + sum_list (map (fst \<circ> snd) (take j trs)) \<le> i"
          "i < start_i + sz + sum_list (map (fst \<circ> snd) (take (Suc j) trs))"
          "snd (snd (trs ! j)) < n_tasks" "list_all (\<lambda>p. p < n) (fst (trs ! j))"
          "snd (snd (trs ! j)) < n_tasks" "list_all (\<lambda>p. p < n) (fst (trs ! j))"
        "\<exists>row. length row = n \<and> set row \<subseteq> {0, 1}
                  \<and> bx' ! i = task_code_row n_tasks (snd (snd (trs ! j))) @ row
                  \<and> by' ! i = row_parity (fst (trs ! j)) row"
          by blast
        show ?thesis using j tr by (intro exI[of _ "Suc j"]) simp
      qed
    qed
  qed
qed

lemma sum_list_zip_snd_le:
  "sum_list (map (f \<circ> snd) (zip xs ys)) \<le> sum_list (map f ys :: nat list)"
proof (induction xs arbitrary: ys)
  case Nil
  then show ?case by simp
next
  case (Cons x xs)
  show ?case
  proof (cases ys)
    case Nil
    then show ?thesis by simp
  next
    case (Cons y ys')
    with Cons.IH[of ys'] show ?thesis by simp
  qed
qed

lemma sum_list_zip_fst_le:
  "sum_list (map fst (zip xs ys)) \<le> sum_list (xs :: nat list)"
proof (induction xs arbitrary: ys)
  case Nil
  then show ?case by simp
next
  case (Cons x xs)
  show ?case
  proof (cases ys)
    case Nil
    then show ?thesis by simp
  next
    case (Cons y ys')
    with Cons.IH[of ys'] show ?thesis by simp
  qed
qed

lemma zipped_sizes_le:
  "sum_list (map (fst \<circ> snd) (zip Ss (zip sizes codes))) \<le> sum_list (sizes :: nat list)"
proof -
  have "sum_list (map (fst \<circ> snd) (zip Ss (zip sizes codes)))
          \<le> sum_list (map fst (zip sizes codes))"
    by (rule sum_list_zip_snd_le[of fst Ss "zip sizes codes"])
  also have "\<dots> \<le> sum_list sizes" by (rule sum_list_zip_fst_le)
  finally show ?thesis .
qed

lemma get_batch_loop_returns:
  "list_all (\<lambda>(S, sz, code). sz = 0 \<or> (code < n_tasks \<and> list_all (\<lambda>j. j < n) S)) trs
   \<Longrightarrow> start_i + sum_list (map (fst \<circ> snd) trs) \<le> length bx
   \<Longrightarrow> \<exists>bx' by' g'. get_batch_loop n_tasks n trs start_i bx by g = Inr (bx', by', g')"
proof (induction trs arbitrary: start_i bx "by" g)
  case Nil
  then show ?case by simp
next
  case (Cons tr trs)
  obtain S sz code where tr: "tr = (S, sz, code)" by (cases tr) auto
  show ?case
  proof (cases "0 < sz")
    case False
    with Cons tr show ?thesis by simp
  next
    case True
    obtain x g1 where r: "randint g sz n = (x, g1)" by (cases "randint g sz n") auto
    have lx: "length x = sz" using randint_shape[OF r] by simp
    define bx1 where "bx1 = assign_rows bx start_i (map (\<lambda>row. task_code_row n_tasks code @ row) x)"
    define by1 where "by1 = assign_rows by start_i (map (row_parity S) x)"
    have fit: "start_i + sz \<le> length bx" using Cons.prems(2) tr by simp
    have l1: "length bx1 = length bx" using fit lx by (simp add: bx1_def length_assign_rows)
    have "\<exists>bx' by' g'. get_batch_loop n_tasks n trs (start_i + sz) bx1 by1 g1 = Inr (bx', by', g')"
      using Cons.prems tr l1 by (intro Cons.IH) (simp_all add: add.assoc)
    then show ?thesis
      using Cons.prems(1) tr True r fit by (simp add: bx1_def by1_def)
  qed
qed

lemma count_list_replicate:
  "count_list (replicate m x) y = (if x = y then m else 0)"
  by (induction m) auto

lemma task_code_row_count:
  "code < n_tasks \<Longrightarrow>
     length (task_code_row n_tasks code) = n_tasks
   \<and> task_code_row n_tasks code ! code = 1
   \<and> count_list (task_code_row n_tasks code) 1 = 1
   \<and> count_list (task_code_row n_tasks code) 0 = n_tasks - 1"
proof (induction n_tasks arbitrary: code)
  case 0
  then show ?case by simp
next
  case (Suc m)
  show ?case
  proof (cases code)
    case 0
    then show ?thesis by (simp add: task_code_row_def count_list_replicate)
  next
    case (Suc c)
    with Suc.prems have c: "c < m" by simp
    from Suc.IH[OF c] Suc c show ?thesis by (simp add: task_code_row_def count_list_replicate)
  qed
qed

lemma row_parity_flip:
  "distinct S \<Longrightarrow> list_all (\<lambda>j. j < length row) S \<Longrightarrow> set row \<subseteq> {0, 1} \<Longrightarrow> p < length row
   \<Longrightarrow> row_parity S (row[p := 1 - row ! p])
         = (if p \<in> set S then 1 - row_parity S row else row_parity S row)"
proof -
  assume d: "distinct S" and v: "list_all (\<lambda>j. j < length row) S"
    and b: "set row \<subseteq> {0, 1}" and p: "p < length row"
  have out: "p \<notin> set T \<Longrightarrow>
      sum_list (map (\<lambda>j. row[p := w] ! j) T) = sum_list (map (\<lambda>j. row ! j) T)" for T w
    by (induction T) auto
  have inn: "distinct T \<Longrightarrow> p \<in> set T \<Longrightarrow>
      sum_list (map (\<lambda>j. row[p := w] ! j) T) + row ! p = sum_list (map (\<lambda>j. row ! j) T) + w" for T w
  proof (induction T)
    case Nil
    then show ?case by simp
  next
    case (Cons a T)
    show ?case
    proof (cases "a = p")
      case True
      with Cons.prems have "p \<notin> set T" by simp
      then have "sum_list (map (\<lambda>j. row[p := w] ! j) T) = sum_list (map (\<lambda>j. row ! j) T)"
        by (rule out)
      with True p show ?thesis by simp
    next
      case False
      with Cons.prems have "distinct T" "p \<in> set T" by simp_all
      from Cons.IH[OF this] False show ?thesis by simp
    qed
  qed
  have bit: "row ! p = 0 \<or> row ! p = 1" using b p by (metis insert_iff nth_mem singletonD subsetD)
  show ?thesis
  proof (cases "p \<in> set S")
    case False
    then have "sum_list (map (\<lambda>j. row[p := 1 - row ! p] ! j) S) = sum_list (map (\<lambda>j. row ! j) S)"
      by (rule out)
    with False show ?thesis by (simp only: row_parity_def if_False)
  next
    case True
    have ar: "a + r = b + (1 - r) \<Longrightarrow> r = 0 \<or> r = 1 \<Longrightarrow> a mod 2 = 1 - b mod 2" for a b r :: nat
    proof (elim disjE)
      assume "a + r = b + (1 - r)" "r = 0"
      then have "a = Suc b" by simp
      then show ?thesis by (simp add: mod_Suc)
    next
      assume "a + r = b + (1 - r)" "r = 1"
      then have "b = Suc a" by simp
      then show ?thesis by (simp add: mod_Suc)
    qed
    from ar[OF inn[OF d True, of "1 - row ! p"] bit] True show ?thesis
      by (simp only: row_parity_def if_True)
  qed
qed

lemma zip3_sizes:
  "length Ss = length sizes \<Longrightarrow> length codes = length sizes
   \<Longrightarrow> map (fst \<circ> snd) (zip Ss (zip sizes codes)) = sizes"
  by (simp add: map_snd_zip map_fst_zip flip: map_map)

lemma get_batch_lengths:
  assumes "get_batch n_tasks n Ss codes sizes g = Inr (bx, by, g')"
  shows "length bx = sum_list sizes \<and> length by = sum_list sizes"
  using get_batch_loop_length[OF assms[unfolded get_batch_def]] by simp

lemma get_batch_rows:
  assumes ret: "get_batch n_tasks n Ss codes sizes g = Inr (bx, by, g')"
    and lS: "length Ss = length sizes" and lc: "length codes = length sizes"
    and i: "i < length bx"
  shows "\<exists>j < length sizes.
            sum_list (take j sizes) \<le> i \<and> i < sum_list (take (Suc j) sizes)
          \<and> codes ! j < n_tasks \<and> list_all (\<lambda>p. p < n) (Ss ! j)
          \<and> (\<exists>row. length row = n \<and> set row \<subseteq> {0, 1}
                \<and> bx ! i = task_code_row n_tasks (codes ! j) @ row
                \<and> by ! i = row_parity (Ss ! j) row)"
proof -
  let ?trs = "zip Ss (zip sizes codes)"
  have sz: "map (fst \<circ> snd) ?trs = sizes" by (rule zip3_sizes[OF lS lc])
  have tk: "map (fst \<circ> snd) (take m ?trs) = take m sizes" for m
    by (simp only: sz flip: take_map)
  have len: "length ?trs = length sizes" using lS lc by simp
  have "i < 0 + sum_list (map (fst \<circ> snd) ?trs)"
    using i get_batch_lengths[OF ret] sz by simp
  with get_batch_loop_rows[OF ret[unfolded get_batch_def]]
  obtain j where j: "j < length ?trs"
      "0 + sum_list (map (fst \<circ> snd) (take j ?trs)) \<le> i"
      "i < 0 + sum_list (map (fst \<circ> snd) (take (Suc j) ?trs))"
      "snd (snd (?trs ! j)) < n_tasks" "list_all (\<lambda>p. p < n) (fst (?trs ! j))"
      "\<exists>row. length row = n \<and> set row \<subseteq> {0, 1}
          \<and> bx ! i = task_code_row n_tasks (snd (snd (?trs ! j))) @ row
          \<and> by ! i = row_parity (fst (?trs ! j)) row"
    by (metis length_replicate le0)
  have jl: "j < length sizes" using j(1) len by simp
  have nth: "?trs ! j = (Ss ! j, sizes ! j, codes ! j)" using jl lS lc by simp
  show ?thesis
    using j(2-) jl unfolding tk nth by (intro exI[of _ j]) simp
qed

text \<open>
  Claim C7. For every list of requests whose indexed requests are in range (a request of size
  zero indexes nothing), \<^verbatim>\<open>get_batch\<close> returns, and the input tensor and the label
  tensor both have exactly \<open>sum_list sizes\<close> rows; with all sizes zero the batch is empty.
\<close>

theorem get_batch_row_count:
  assumes "list_all (\<lambda>(S, sz, code). sz = 0 \<or> (code < n_tasks \<and> list_all (\<lambda>j. j < n) S))
             (zip Ss (zip sizes codes))"
  shows "\<exists>bx by g'. get_batch n_tasks n Ss codes sizes g = Inr (bx, by, g')
            \<and> length bx = sum_list sizes \<and> length by = sum_list sizes"
proof -
  have "0 + sum_list (map (fst \<circ> snd) (zip Ss (zip sizes codes)))
          \<le> length (replicate (sum_list sizes) (replicate (n_tasks + n) (0::nat)))"
    using zipped_sizes_le[of Ss sizes codes] by simp
  from get_batch_loop_returns[OF assms this]
  obtain bx "by" g' where ret: "get_batch n_tasks n Ss codes sizes g = Inr (bx, by, g')"
    unfolding get_batch_def by blast
  with get_batch_lengths[OF ret] show ?thesis by blast
qed

theorem get_batch_row_count_witness:
  "(\<exists>bx by g'. get_batch 2 3 [[0, 2], [1]] [1, 0] [2, 1] (\<lambda>i. i) = Inr (bx, by, g')
       \<and> length bx = 3 \<and> length by = 3)
   \<and> (\<exists>bx by g'. get_batch 2 3 [[0, 2], [1]] [1, 0] [0, 0] (\<lambda>i. i) = Inr (bx, by, g')
       \<and> length bx = 0 \<and> length by = 0)"
  using get_batch_row_count[where n_tasks = 2 and n = 3 and Ss = "[[0, 2], [1]]"
          and codes = "[1, 0]" and sizes = "[2, 1]" and g = "\<lambda>i. i"]
        get_batch_row_count[where n_tasks = 2 and n = 3 and Ss = "[[0, 2], [1]]"
          and codes = "[1, 0]" and sizes = "[0, 0]" and g = "\<lambda>i. i"]
  by simp

text \<open>
  Claim C6. Every row of a synthesized batch lies in the block of one request \<open>j\<close>; its
  first \<open>n_tasks\<close> entries hold exactly one 1 and \<open>n_tasks - 1\<close> zeros, and the 1 stands
  at position \<open>codes ! j\<close>, the code of the request that generated the row.
\<close>

theorem get_batch_one_hot:
  assumes "get_batch n_tasks n Ss codes sizes g = Inr (bx, by, g')"
    and "length Ss = length sizes" and "length codes = length sizes"
    and "i < length bx"
  shows "\<exists>j < length codes.
            sum_list (take j sizes) \<le> i \<and> i < sum_list (take (Suc j) sizes)
          \<and> codes ! j < n_tasks
          \<and> length (bx ! i) = n_tasks + n
          \<and> count_list (take n_tasks (bx ! i)) 1 = 1
          \<and> count_list (take n_tasks (bx ! i)) 0 = n_tasks - 1
          \<and> take n_tasks (bx ! i) ! (codes ! j) = 1"
proof -
  from get_batch_rows[OF assms]
  obtain j row where j: "j < length sizes"
      "sum_list (take j sizes) \<le> i" "i < sum_list (take (Suc j) sizes)"
      "codes ! j < n_tasks" "length row = n"
      "bx ! i = task_code_row n_tasks (codes ! j) @ row"
    by blast
  note tc = task_code_row_count[OF j(4)]
  have "take n_tasks (bx ! i) = task_code_row n_tasks (codes ! j)"
    using j(6) tc by simp
  moreover have "length (bx ! i) = n_tasks + n" using j(5,6) tc by simp
  ultimately show ?thesis
    using j(1-4) tc assms(3) by (intro exI[of _ j]) simp
qed

text \<open>
  Claim C5. Every row of a synthesized batch lies in the block of one request \<open>j\<close>; its
  label is the sum modulo 2 of its bits at the positions \<open>Ss ! j\<close>. When these positions
  are pairwise distinct, flipping one of them flips the label and flipping any other bit
  leaves the label unchanged.
\<close>

theorem get_batch_label_parity:
  assumes "get_batch n_tasks n Ss codes sizes g = Inr (bx, by, g')"
    and "length Ss = length sizes" and "length codes = length sizes"
    and "i < length bx"
  shows "\<exists>j < length Ss.
            sum_list (take j sizes) \<le> i \<and> i < sum_list (take (Suc j) sizes)
          \<and> by ! i = row_parity (Ss ! j) (drop n_tasks (bx ! i))
          \<and> (distinct (Ss ! j) \<longrightarrow>
               (\<forall>p < n. row_parity (Ss ! j)
                              ((drop n_tasks (bx ! i))[p := 1 - drop n_tasks (bx ! i) ! p])
                        = (if p \<in> set (Ss ! j) then 1 - by ! i else by ! i)))"
proof -
  from get_batch_rows[OF assms]
  obtain j row where j: "j < length sizes"
      "sum_list (take j sizes) \<le> i" "i < sum_list (take (Suc j) sizes)"
      "codes ! j < n_tasks" "list_all (\<lambda>p. p < n) (Ss ! j)" "length row = n"
      "set row \<subseteq> {0, 1}"
      "bx ! i = task_code_row n_tasks (codes ! j) @ row"
      "by ! i = row_parity (Ss ! j) row"
    by blast
  have bits: "drop n_tasks (bx ! i) = row"
    using j(8) task_code_row_count[OF j(4)] by simp
  have flip: "row_parity (Ss ! j) (row[p := 1 - row ! p])
                = (if p \<in> set (Ss ! j) then 1 - by ! i else by ! i)"
    if "distinct (Ss ! j)" "p < n" for p
    using row_parity_flip[OF that(1), of row p] j(5,6,7,9) that(2) by simp
  show ?thesis
    using j(1-3,9) flip assms(2) unfolding bits by (intro exI[of _ j]) simp
qed

lemma get_batch_example: "case get_batch 2 3 [[0, 2], [1]] [1, 0] [2, 1] (\<lambda>i. i) of
         Inr (bx, by, g') \<Rightarrow> bx = [[0, 1, 0, 1, 0], [0, 1, 1, 0, 1], [1, 0, 0, 1, 0]] \<and> by = [0, 0, 1]
       | Inl e \<Rightarrow> False"
  by code_simp

theorem get_batch_one_hot_witness:
  "\<exists>bx by g'. get_batch 2 3 [[0, 2], [1]] [1, 0] [2, 1] (\<lambda>i. i) = Inr (bx, by, g')
     \<and> bx ! 2 = [1, 0, 0, 1, 0]
     \<and> (\<exists>j < length [1, 0 :: nat].
            sum_list (take j [2, 1]) \<le> (2 :: nat) \<and> 2 < sum_list (take (Suc j) [2, 1 :: nat])
          \<and> [1, 0] ! j < (2 :: nat)
          \<and> length (bx ! 2) = 2 + 3
          \<and> count_list (take 2 (bx ! 2)) 1 = 1
          \<and> count_list (take 2 (bx ! 2)) 0 = 2 - 1
          \<and> take 2 (bx ! 2) ! ([1, 0] ! j) = 1)"
proof -
  from get_batch_example obtain bx "by" g' where
    ret: "get_batch 2 3 [[0, 2], [1]] [1, 0] [2, 1] (\<lambda>i. i) = Inr (bx, by, g')"
    and bx: "bx = [[0, 1, 0, 1, 0], [0, 1, 1, 0, 1], [1, 0, 0, 1, 0]]"
    by (auto split: sum.splits)
  have i: "2 < length bx" using bx by simp
  from get_batch_one_hot[OF ret _ _ i] ret bx show ?thesis by simp
qed

theorem get_batch_label_parity_witness:
  "\<exists>bx by g'. get_batch 2 3 [[0, 2], [1]] [1, 0] [2, 1] (\<lambda>i. i) = Inr (bx, by, g')
     \<and> by ! 1 = 0
     \<and> (\<exists>j < length [[0, 2], [1 :: nat]].
            sum_list (take j [2, 1]) \<le> (1 :: nat) \<and> 1 < sum_list (take (Suc j) [2, 1 :: nat])
          \<and> by ! 1 = row_parity ([[0, 2], [1]] ! j) (drop 2 (bx ! 1))
          \<and> (distinct ([[0, 2], [1 :: nat]] ! j) \<longrightarrow>
               (\<forall>p < 3. row_parity ([[0, 2], [1]] ! j)
                              ((drop 2 (bx ! 1))[p := 1 - drop 2 (bx ! 1) ! p])
                        = (if p \<in> set ([[0, 2], [1]] ! j) then 1 - by ! 1 else by ! 1))))"
proof -
  from get_batch_example obtain bx "by" g' where
    ret: "get_batch 2 3 [[0, 2], [1]] [1, 0] [2, 1] (\<lambda>i. i) = Inr (bx, by, g')"
    and bx: "bx = [[0, 1, 0, 1, 0], [0, 1, 1, 0, 1], [1, 0, 0, 1, 0]]"
    and "by": "by = [0, 0, 1]"
    by (auto split: sum.splits)
  have i: "1 < length bx" using bx by simp
  have l1: "length [[0, 2], [1 :: nat]] = length [2, 1 :: nat]" by simp
  have l2: "length [1, 0 :: nat] = length [2, 1 :: nat]" by simp
  have b1: "by ! 1 = 0" using "by" by simp
  from ret b1 get_batch_label_parity[OF ret l1 l2 i] show ?thesis by blast
qed

section \<open>The metric series\<close>

lemma eval_subtasks_keeps:
  "log_steps (outcome_info (eval_subtasks L c Ss is st)) = log_steps (info st)
   \<and> losses (outcome_info (eval_subtasks L c Ss is st)) = losses (info st)
   \<and> accuracies (outcome_info (eval_subtasks L c Ss is st)) = accuracies (info st)"
proof (induction "is" arbitrary: st)
  case Nil
  then show ?case by (simp add: outcome_info_def)
next
  case (Cons i "is")
  show ?case
  proof (cases "i < length Ss")
    case False
    then show ?thesis by (simp add: outcome_info_def)
  next
    case True
    show ?thesis
    proof (cases "get_batch (cfg_n_tasks c) (cfg_n c) [Ss ! i] [i] [cfg_test_points_per_task c] (torch_gen st)")
      case (Inl e)
      with True show ?thesis by (simp add: outcome_info_def)
    next
      case (Inr r)
      obtain x_i y_i torch_g where r: "r = (x_i, y_i, torch_g)" by (cases r) auto
      show ?thesis
      proof (cases "cfg_test_points_per_task c = 0")
        case z: True
        with True Inr r show ?thesis by (simp add: outcome_info_def Let_def)
      next
        case nz: False
        with True Inr r show ?thesis by (simp add: Let_def Cons.IH)
      qed
    qed
  qed
qed

lemma evaluate_log_steps:
  "log_steps (outcome_info (evaluate L c Ss st)) = log_steps (info st)"
  by (simp add: evaluate_def Let_def outcome_info_def[of "Inl _"] eval_subtasks_keeps
           split: sum.splits prod.splits option.splits)

lemma train_step_info:
  "outcome_info (train_step L c Ss st) = info st"
  by (simp add: train_step_def Let_def outcome_info_def split: sum.splits prod.splits)

lemma loop_body_log_steps:
  "log_steps (outcome_info (loop_body L c Ss step st)) = log_steps (info st)"
proof (cases "cfg_log_freq c = 0")
  case True
  then show ?thesis by (simp add: loop_body_def outcome_info_def)
next
  case False
  show ?thesis
  proof (cases "step mod cfg_log_freq c = 0")
    case ev: True
    show ?thesis
    proof (cases "evaluate L c Ss st")
      case (Inl e)
      with False ev evaluate_log_steps[of L c Ss st] show ?thesis
        by (simp add: loop_body_def)
    next
      case (Inr st1)
      with False ev evaluate_log_steps[of L c Ss st] train_step_info[of L c Ss st1] show ?thesis
        by (simp add: loop_body_def outcome_info_def[of "Inr _"])
    qed
  next
    case nev: False
    with False train_step_info[of L c Ss st] show ?thesis by (simp add: loop_body_def)
  qed
qed

lemma train_loop_log_steps:
  "log_steps (outcome_info (train_loop L c Ss steps st)) = log_steps (info st)"
proof (induction steps arbitrary: st)
  case Nil
  then show ?case by (simp add: outcome_info_def)
next
  case (Cons step steps)
  show ?case
  proof (cases "loop_body L c Ss step st")
    case (Inl e)
    with loop_body_log_steps[of L c Ss step st] show ?thesis by simp
  next
    case (Inr st1)
    with loop_body_log_steps[of L c Ss step st] Cons.IH[of st1] show ?thesis
      by (simp add: outcome_info_def[of "Inr _"])
  qed
qed

text \<open>
  Claim C3 (measured on the code). No step of a run appends to \<^verbatim>\<open>log_steps\<close>: whatever
  the number of steps and the period, and whether the run ends normally or by an
  exception, the series is absent (the run failed before creating it) or empty.
\<close>

theorem run_log_steps_never_appended:
  "log_steps (outcome_info (run L c gens)) \<in> {None, Some []}"
proof (cases "run_setup L c gens")
  case (Inl e)
  then have "run L c gens = Inl e" by (simp add: run_def)
  moreover have "log_steps (snd e) = None"
    using Inl by (auto simp: run_setup_def Let_def empty_info_def split: option.splits prod.splits sum.splits)
  ultimately show ?thesis by (cases e) (simp add: outcome_info_def)
next
  case (Inr r)
  obtain Ss st where r: "r = (Ss, st)" by (cases r) auto
  have "log_steps (info st) = Some []"
    using Inr r by (auto simp: run_setup_def Let_def split: option.splits prod.splits sum.splits)
  with Inr r train_loop_log_steps[of L c Ss "[0..<cfg_steps c]" st] show ?thesis
    by (simp add: run_def)
qed


text \<open>
  Claim C2 (measured on the code). An evaluation event does not compute a loss on its
  batch. With \<^verbatim>\<open>loss\<close> unbound, as at step 0, it raises and appends nothing to
  \<^verbatim>\<open>losses\<close>; with \<^verbatim>\<open>loss\<close> bound, the entry it appends is that value, left by the
  previous training step. Hence every run of at least one step ends by an exception with
  no loss recorded.
\<close>

theorem evaluate_records_stale_loss:
  "(\<exists>e i. evaluate L c Ss (st\<lparr>loss := None\<rparr>) = Inl (e, i) \<and> losses i = losses (info st))
   \<and> (\<forall>l st'. evaluate L c Ss (st\<lparr>loss := Some l\<rparr>) = Inr st'
         \<longrightarrow> losses (info st') = append_to (losses (info st)) l)
   \<and> (0 < cfg_steps c
         \<longrightarrow> (\<exists>e i. run L c gens = Inl (e, i) \<and> losses i \<in> {None, Some []}))"
proof -
  have unbound: "\<exists>e i. evaluate L c Ss s = Inl (e, i) \<and> losses i = losses (info s)"
    if "loss s = None" for s Ss
    using that
    by (auto simp: evaluate_def Let_def split: sum.splits prod.splits)
  have stale: "losses (info st') = append_to (losses (info s)) l"
    if "evaluate L c Ss s = Inr st'" "loss s = Some l" for s st' l
  proof -
    from that obtain s2 where
      e: "eval_subtasks L c Ss [0..<cfg_n_tasks c] s2 = Inr st'"
      and l: "losses (info s2) = append_to (losses (info s)) l"
      by (auto simp: evaluate_def Let_def split: sum.splits prod.splits if_splits)
    from eval_subtasks_keeps[of L c Ss "[0..<cfg_n_tasks c]" s2] e l show ?thesis
      by (simp add: outcome_info_def)
  qed
  have run_fails: "\<exists>e i. run L c gens = Inl (e, i) \<and> losses i \<in> {None, Some []}"
    if s: "0 < cfg_steps c"
  proof (cases "run_setup L c gens")
    case (Inl ei)
    then have "run L c gens = Inl ei" by (simp add: run_def)
    moreover have "losses (snd ei) = None"
      using Inl by (auto simp: run_setup_def Let_def empty_info_def
                         split: option.splits prod.splits sum.splits)
    ultimately show ?thesis by (cases ei) auto
  next
    case (Inr r)
    obtain Ss0 s0 where r: "r = (Ss0, s0)" by (cases r) auto
    have s0: "loss s0 = None" "losses (info s0) = Some []"
      using Inr r by (auto simp: run_setup_def Let_def split: option.splits prod.splits sum.splits)
    have up: "[0..<cfg_steps c] = 0 # [1..<cfg_steps c]" using s by (simp add: upt_conv_Cons)
    from unbound[OF s0(1), of Ss0] obtain e i where
      ev: "evaluate L c Ss0 s0 = Inl (e, i)" "losses i = losses (info s0)" by blast
    have "\<exists>e i. loop_body L c Ss0 0 s0 = Inl (e, i) \<and> losses i = Some []"
      using ev s0 by (simp add: loop_body_def)
    then show ?thesis using Inr r up by (auto simp: run_def)
  qed
  have 1: "\<exists>e i. evaluate L c Ss (st\<lparr>loss := None\<rparr>) = Inl (e, i) \<and> losses i = losses (info st)"
    using unbound[of "st\<lparr>loss := None\<rparr>" Ss] by simp
  have 2: "\<forall>l st'. evaluate L c Ss (st\<lparr>loss := Some l\<rparr>) = Inr st'
         \<longrightarrow> losses (info st') = append_to (losses (info st)) l"
    using stale[of "st\<lparr>loss := Some _\<rparr>"] by simp
  from 1 2 run_fails show ?thesis by blast
qed

section \<open>Task-mixture sampling: codes\<close>

lemma hist_incr_keys:
  "fst ` set (hist_incr h s) = insert s (fst ` set h)"
  by (induction h s rule: hist_incr.induct) auto

lemma foldl_hist_incr_keys:
  "fst ` set (foldl hist_incr h samples) = fst ` set h \<union> set samples"
  by (induction samples arbitrary: h) (simp_all add: hist_incr_keys)

lemma histogram_keys: "set (map fst (histogram samples)) = set samples"
  by (simp add: histogram_def foldl_hist_incr_keys)

text \<open>
  Claim C1 (measured on the code). The codes of a drawn composition are the drawn ranks
  themselves, not ranks minus one: code 0 never occurs, rank \<open>r\<close> selects \<open>Ss ! r\<close>, and a
  draw that contains the rank \<open>n_tasks\<close> indexes past the end of the Subtask Set and raises
  \<^verbatim>\<open>IndexError\<close>.
\<close>

theorem batch_composition_codes_are_ranks:
  "(batch_composition n_tasks alpha Ss m g = Inr (codes, sizes, batch_Ss, g')
      \<longrightarrow> set codes = (\<lambda>i. 1 + g i mod n_tasks) ` {..<m} \<and> 0 \<notin> set codes
          \<and> batch_Ss = map (\<lambda>c. Ss ! c) codes)
   \<and> (0 \<le> alpha \<and> 0 < n_tasks \<and> length Ss = n_tasks \<and> i < m \<and> g i mod n_tasks = n_tasks - 1
      \<longrightarrow> batch_composition n_tasks alpha Ss m g = Inl IndexError)"
proof (rule conjI; rule impI)
  assume r: "batch_composition n_tasks alpha Ss m g = Inr (codes, sizes, batch_Ss, g')"
  let ?samples = "map (\<lambda>i. 1 + g i mod n_tasks) [0..<m]"
  from r have z: "zipfian_rvs g alpha n_tasks m = Inr (?samples, advance m g)"
    by (auto simp: batch_composition_def zipfian_rvs_def split: if_splits)
  from r z have c: "codes = map fst (histogram ?samples)"
    and b: "batch_Ss = map (\<lambda>c. Ss ! c) codes"
    by (auto simp: batch_composition_def Let_def select_Ss_def split: if_splits)
  have "set codes = set ?samples" unfolding c by (rule histogram_keys)
  also have "\<dots> = (\<lambda>i. 1 + g i mod n_tasks) ` {..<m}" by (simp add: atLeast0LessThan)
  finally have s: "set codes = (\<lambda>i. 1 + g i mod n_tasks) ` {..<m}" .
  then have "0 \<notin> set codes" by auto
  with s b show "set codes = (\<lambda>i. 1 + g i mod n_tasks) ` {..<m} \<and> 0 \<notin> set codes
          \<and> batch_Ss = map (\<lambda>c. Ss ! c) codes" by simp
next
  assume h: "0 \<le> alpha \<and> 0 < n_tasks \<and> length Ss = n_tasks \<and> i < m
               \<and> g i mod n_tasks = n_tasks - 1"
  let ?samples = "map (\<lambda>i. 1 + g i mod n_tasks) [0..<m]"
  from h have z: "zipfian_rvs g alpha n_tasks m = Inr (?samples, advance m g)"
    by (simp add: zipfian_rvs_def)
  from h have "n_tasks \<in> set ?samples" by force
  then have "n_tasks \<in> set (map fst (histogram ?samples))" by (simp only: histogram_keys)
  then have "\<not> list_all (\<lambda>c. c < length Ss) (map fst (histogram ?samples))"
    using h by (auto simp: list_all_iff)
  then show "batch_composition n_tasks alpha Ss m g = Inl IndexError"
    using z by (simp add: batch_composition_def Let_def select_Ss_def)
qed

lemma batch_composition_example:
  "case batch_composition 2 (3 / 2) [[0], [1]] 3 (\<lambda>i. 2 * i) of
     Inr (codes, sizes, batch_Ss, g') \<Rightarrow> codes = [1] \<and> sizes = [3] \<and> batch_Ss = [[1]]
   | Inl e \<Rightarrow> False"
  by code_simp

theorem batch_composition_codes_are_ranks_witness:
  "(\<exists>codes sizes batch_Ss g'.
       batch_composition 2 (3 / 2) [[0], [1]] 3 (\<lambda>i. 2 * i) = Inr (codes, sizes, batch_Ss, g')
     \<and> codes = [1] \<and> batch_Ss = [[1]]
     \<and> set codes = (\<lambda>i. 1 + 2 * i mod 2) ` {..<3} \<and> 0 \<notin> set codes
     \<and> batch_Ss = map (\<lambda>c. [[0], [1]] ! c) codes)
   \<and> batch_composition 2 (3 / 2) [[0], [1]] 3 (\<lambda>i. i) = Inl IndexError"
proof -
  from batch_composition_example obtain codes sizes batch_Ss g' where
    r: "batch_composition 2 (3 / 2) [[0], [1]] 3 (\<lambda>i. 2 * i) = Inr (codes, sizes, batch_Ss, g')"
    and v: "codes = [1]" "batch_Ss = [[1]]"
    by (auto split: sum.splits)
  have 1: "set codes = (\<lambda>i. 1 + 2 * i mod 2) ` {..<3} \<and> 0 \<notin> set codes
          \<and> batch_Ss = map (\<lambda>c. [[0], [1]] ! c) codes"
    using batch_composition_codes_are_ranks
            [of 2 "3 / 2" "[[0], [1]]" 3 "\<lambda>i. 2 * i" codes sizes batch_Ss g'] r
    by blast
  have 2: "batch_composition 2 (3 / 2) [[0], [1]] 3 (\<lambda>i. i) = Inl IndexError"
    using batch_composition_codes_are_ranks
            [of 2 "3 / 2" "[[0], [1]]" 3 "\<lambda>i. i" _ _ _ _ 1]
    by simp
  from 1 have k1: "set codes = (\<lambda>i. 1 + 2 * i mod 2) ` {..<3}" and k2: "0 \<notin> set codes"
    and k3: "batch_Ss = map (\<lambda>c. [[0], [1]] ! c) codes"
    by (rule conjunct1, rule conjunct2[THEN conjunct1], rule conjunct2[THEN conjunct2])
  show ?thesis
    by (intro conjI exI[of _ codes] exI[of _ sizes] exI[of _ batch_Ss] exI[of _ g'])
       (rule r v k1 k2 k3 2)+
qed

section \<open>The learner\<close>

text \<open>
  Claim C4 (measured on the code). With \<open>depth = 1\<close> the only iteration takes the branch
  for \<open>i = 0\<close>: the stack is one affine layer from \<open>n_tasks + n\<close> inputs to \<open>width\<close>
  outputs followed by the nonlinearity. The layer with 2 outputs is not built.
\<close>

theorem build_layers_depth_one:
  "build_layers n_tasks n width 1 a = [Linear (n_tasks + n) width, Activation a]"
  by (simp add: build_layers_def add_layer_def)

lemma build_layers_hidden:
  "0 < m \<Longrightarrow> m < depth \<Longrightarrow>
     foldl (add_layer n_tasks n width depth a) [] [0..<m]
       = [Linear (n_tasks + n) width, Activation a]
           @ concat (replicate (m - 1) [Linear width width, Activation a])"
proof (induction m)
  case 0
  then show ?case by simp
next
  case (Suc m)
  show ?case
  proof (cases "m = 0")
    case True
    then show ?thesis by (simp add: add_layer_def)
  next
    case False
    then have m: "0 < m" "m < depth" "m \<noteq> depth - 1" using Suc.prems by auto
    have rep: "replicate m x = replicate (m - 1) x @ [x]" for x :: "layer list"
      using m(1) by (metis Suc_pred' replicate_Suc replicate_append_same)
    from Suc.IH[OF m(1,2)] m False show ?thesis
      by (simp add: add_layer_def rep[of "[Linear width width, Activation a]"])
  qed
qed

text \<open>
  From depth 2 on the stack has the shape the design describes: \<open>depth\<close> affine layers,
  the nonlinearity after all but the last, and 2 outputs.
\<close>

lemma build_layers_deep:
  assumes "2 \<le> depth"
  shows "build_layers n_tasks n width depth a
           = [Linear (n_tasks + n) width, Activation a]
               @ concat (replicate (depth - 2) [Linear width width, Activation a])
               @ [Linear width 2]"
proof -
  obtain m where d: "depth = Suc m" and m: "0 < m" using assms by (cases depth) auto
  have "build_layers n_tasks n width depth a
          = add_layer n_tasks n width depth a
              (foldl (add_layer n_tasks n width depth a) [] [0..<m]) m"
    by (simp add: build_layers_def d)
  also have "\<dots> = foldl (add_layer n_tasks n width depth a) [] [0..<m] @ [Linear width 2]"
    using m d by (simp add: add_layer_def)
  finally show ?thesis
    using build_layers_hidden[of m depth n_tasks n width a] m d
    by (simp add: numeral_2_eq_2)
qed

section \<open>Failures of the run\<close>

lemma make_Ss_returns:
  "k \<le> n \<Longrightarrow> \<exists>Ss g'. make_Ss g n k m = Inr (Ss, g') \<and> length Ss = m"
proof (induction m arbitrary: g)
  case 0
  then show ?case by simp
next
  case (Suc m)
  from Suc.IH[OF Suc.prems, of "advance k g"] obtain Ss g' where
    "make_Ss (advance k g) n k m = Inr (Ss, g')" "length Ss = m" by blast
  with Suc.prems show ?case by (simp add: random_sample_def)
qed

lemma make_Ss_raises:
  "n < k \<Longrightarrow> make_Ss g n k (Suc m) = Inl ValueError"
  by (simp add: random_sample_def)

lemma run_setup_returns:
  assumes a: "activation_class (cfg_activation c) = Some a"
    and k: "cfg_k c \<le> cfg_n c \<or> cfg_n_tasks c = 0"
  shows "\<exists>Ss st. run_setup L c gens = Inr (Ss, st) \<and> length Ss = cfg_n_tasks c
            \<and> loss st = None \<and> info_Ss (info st) = Some Ss
            \<and> log_steps (info st) = Some [] \<and> accuracies (info st) = Some []
            \<and> losses (info st) = Some [] \<and> losses_subtasks (info st) = Some []
            \<and> accuracies_subtasks (info st) = Some []"
proof -
  have "\<exists>Ss g'. make_Ss (py_gen (seed_generators L (cfg_seed c) gens)) (cfg_n c) (cfg_k c)
                  (cfg_n_tasks c) = Inr (Ss, g') \<and> length Ss = cfg_n_tasks c"
  proof (cases "cfg_n_tasks c = 0")
    case True
    then show ?thesis by simp
  next
    case False
    with k have "cfg_k c \<le> cfg_n c" by simp
    then show ?thesis by (rule make_Ss_returns)
  qed
  then obtain Ss g' where
    "make_Ss (py_gen (seed_generators L (cfg_seed c) gens)) (cfg_n c) (cfg_k c) (cfg_n_tasks c)
       = Inr (Ss, g')" "length Ss = cfg_n_tasks c"
    by blast
  with a show ?thesis
    by (simp add: run_setup_def Let_def split: prod.splits)
qed

text \<open>
  Claim C8, amended. An unrecognized activation identifier ends the run with an assertion
  failure before anything is built or recorded. A sample size \<open>k\<close> above \<open>n\<close> is not
  checked ahead: with at least one subtask it surfaces as the \<^verbatim>\<open>ValueError\<close> of the first
  \<^verbatim>\<open>random.sample\<close> call, after the model has been constructed and \<^verbatim>\<open>P\<close> and \<^verbatim>\<open>D\<close>
  have been recorded, and before the Subtask Set or any metric series exists; with no
  subtask nothing is sampled and the preparation of the run succeeds.
\<close>

theorem invalid_configuration_failures:
  "(activation_class (cfg_activation c) = None
      \<longrightarrow> run L c gens = Inl (AssertionError, empty_info))
   \<and> (activation_class (cfg_activation c) = Some a \<and> cfg_n c < cfg_k c \<and> 0 < cfg_n_tasks c
      \<longrightarrow> run L c gens =
            Inl (ValueError,
                 empty_info\<lparr>info_P :=
                     Some (sum_list (map numel
                       (build_layers (cfg_n_tasks c) (cfg_n c) (cfg_width c) (cfg_depth c) a))),
                   info_D := Some (cfg_steps c * cfg_batch_size c)\<rparr>))
   \<and> (activation_class (cfg_activation c) = Some a \<and> cfg_n_tasks c = 0
      \<longrightarrow> (\<exists>st. run_setup L c gens = Inr ([], st)))"
proof (intro conjI impI)
  assume "activation_class (cfg_activation c) = None"
  then show "run L c gens = Inl (AssertionError, empty_info)"
    by (simp add: run_def run_setup_def)
next
  assume h: "activation_class (cfg_activation c) = Some a \<and> cfg_n c < cfg_k c \<and> 0 < cfg_n_tasks c"
  then obtain m where m: "cfg_n_tasks c = Suc m" by (cases "cfg_n_tasks c") auto
  have ms: "make_Ss g (cfg_n c) (cfg_k c) (cfg_n_tasks c) = Inl ValueError" for g
    unfolding m using h by (intro make_Ss_raises) simp
  from h show "run L c gens =
            Inl (ValueError,
                 empty_info\<lparr>info_P :=
                     Some (sum_list (map numel
                       (build_layers (cfg_n_tasks c) (cfg_n c) (cfg_width c) (cfg_depth c) a))),
                   info_D := Some (cfg_steps c * cfg_batch_size c)\<rparr>)"
    by (simp add: run_def run_setup_def Let_def ms split: prod.splits)
next
  assume h: "activation_class (cfg_activation c) = Some a \<and> cfg_n_tasks c = 0"
  then show "\<exists>st. run_setup L c gens = Inr ([], st)"
    by (simp add: run_setup_def Let_def split: prod.splits)
qed

text \<open>
  Claim C8 as stated fails: a run with \<open>k = 4 > n = 3\<close> raises only after the model exists,
  and leaves \<^verbatim>\<open>P\<close> and \<^verbatim>\<open>D\<close> in the recorded output.
\<close>

theorem late_sample_failure_counterexample:
  "run counting_library
       \<lparr>cfg_n_tasks = 2, cfg_n = 3, cfg_k = 4, cfg_alpha = 3 / 2, cfg_width = 4, cfg_depth = 2,
        cfg_activation = ''ReLU'', cfg_test_points = 3, cfg_test_points_per_task = 2,
        cfg_steps = 1, cfg_batch_size = 4, cfg_lr = 1 / 1000, cfg_log_freq = 1, cfg_seed = 0\<rparr>
       \<lparr>torch_gen = (\<lambda>i. 0), py_gen = (\<lambda>i. 0), np_gen = (\<lambda>i. 0)\<rparr>
     = Inl (ValueError, empty_info\<lparr>info_P := Some 34, info_D := Some 4\<rparr>)"
proof -
  have "case run counting_library
       \<lparr>cfg_n_tasks = 2, cfg_n = 3, cfg_k = 4, cfg_alpha = 3 / 2, cfg_width = 4, cfg_depth = 2,
        cfg_activation = ''ReLU'', cfg_test_points = 3, cfg_test_points_per_task = 2,
        cfg_steps = 1, cfg_batch_size = 4, cfg_lr = 1 / 1000, cfg_log_freq = 1, cfg_seed = 0\<rparr>
               \<lparr>torch_gen = (\<lambda>i. 0), py_gen = (\<lambda>i. 0), np_gen = (\<lambda>i. 0)\<rparr> of
          Inl (e, i) \<Rightarrow> e = ValueError
             \<and> i = empty_info\<lparr>info_P := Some 34, info_D := Some 4\<rparr>
        | Inr st \<Rightarrow> False"
    by code_simp
  then show ?thesis by (auto split: sum.splits)
qed

text \<open>
  Claim C10. The evaluation trigger divides by \<^verbatim>\<open>log_freq\<close> unguarded. For a
  configuration with \<open>log_freq = 0\<close> that reaches the step loop with at least one step, the
  body of step 0 raises \<^verbatim>\<open>ZeroDivisionError\<close> before it evaluates or trains: no metric is
  recorded and \<^verbatim>\<open>loss\<close> is still unbound. The default \<^verbatim>\<open>steps // 1000\<close> is 0 for every
  \<open>steps < 1000\<close>, so the default configuration fails this way for \<open>0 < steps < 1000\<close>.
\<close>

theorem zero_log_freq_raises:
  "(cfg_log_freq c = 0 \<and> 0 < cfg_steps c \<and> activation_class (cfg_activation c) = Some a
      \<and> (cfg_k c \<le> cfg_n c \<or> cfg_n_tasks c = 0)
      \<longrightarrow> (\<exists>Ss st. run_setup L c gens = Inr (Ss, st)
             \<and> loop_body L c Ss 0 st = Inl (ZeroDivisionError, info st)
             \<and> run L c gens = Inl (ZeroDivisionError, info st)
             \<and> loss st = None
             \<and> accuracies (info st) = Some [] \<and> losses (info st) = Some []
             \<and> losses_subtasks (info st) = Some [] \<and> accuracies_subtasks (info st) = Some []))
   \<and> (steps < 1000 \<longrightarrow> cfg_log_freq (cfg steps sd) = 0)
   \<and> (0 < steps \<and> steps < 1000
      \<longrightarrow> (\<exists>i. run L (cfg steps sd) gens = Inl (ZeroDivisionError, i)))"
proof -
  have main: "\<exists>Ss st. run_setup L c gens = Inr (Ss, st)
             \<and> loop_body L c Ss 0 st = Inl (ZeroDivisionError, info st)
             \<and> run L c gens = Inl (ZeroDivisionError, info st)
             \<and> loss st = None
             \<and> accuracies (info st) = Some [] \<and> losses (info st) = Some []
             \<and> losses_subtasks (info st) = Some [] \<and> accuracies_subtasks (info st) = Some []"
    if z: "cfg_log_freq c = 0" and s: "0 < cfg_steps c"
      and a: "activation_class (cfg_activation c) = Some a"
      and k: "cfg_k c \<le> cfg_n c \<or> cfg_n_tasks c = 0" for c :: config and a
  proof -
    from run_setup_returns[OF a k, of L gens] obtain Ss st where
      su: "run_setup L c gens = Inr (Ss, st)" and e: "loss st = None"
        "accuracies (info st) = Some []" "losses (info st) = Some []"
        "losses_subtasks (info st) = Some []" "accuracies_subtasks (info st) = Some []"
      by blast
    have lb: "loop_body L c Ss 0 st = Inl (ZeroDivisionError, info st)"
      using z by (simp add: loop_body_def)
    have "[0..<cfg_steps c] = 0 # [1..<cfg_steps c]" using s by (simp add: upt_conv_Cons)
    then have "run L c gens = Inl (ZeroDivisionError, info st)"
      using su lb by (simp add: run_def)
    with su lb e show ?thesis by blast
  qed
  have d: "cfg_log_freq (cfg steps sd) = 0" if "steps < 1000" using that by (simp add: cfg_def)
  have "\<exists>i. run L (cfg steps sd) gens = Inl (ZeroDivisionError, i)"
    if "0 < steps" "steps < 1000"
  proof -
    have "activation_class (cfg_activation (cfg steps sd)) = Some ReLU"
      by (simp add: cfg_def activation_class_def)
    from main[OF d[OF that(2)] _ this] that(1) show ?thesis by (auto simp: cfg_def)
  qed
  with main d show ?thesis by blast
qed

section \<open>Reproducibility\<close>

text \<open>
  Claim C9. Whatever state the three generators are in when \<^verbatim>\<open>run\<close> is entered, two runs
  with the same configuration (seed included) prepare the same state and have the same
  outcome. The Subtask Set is the one sampled from the freshly seeded \<^verbatim>\<open>random\<close>
  generator, and the numpy generator that the mixture draws read enters the step loop
  freshly seeded, so the composition of every draw is the same in both runs.
\<close>

theorem seeded_runs_agree:
  "run_setup L c gens = run_setup L c gens'
   \<and> run L c gens = run L c gens'
   \<and> (\<forall>Ss st. run_setup L c gens = Inr (Ss, st)
        \<longrightarrow> make_Ss (random_seed L (cfg_seed c)) (cfg_n c) (cfg_k c) (cfg_n_tasks c)
              = Inr (Ss, py_gen st)
          \<and> info_Ss (info st) = Some Ss
          \<and> np_gen st = np_random_seed L (cfg_seed c))"
proof -
  have s: "run_setup L c gens = run_setup L c gens'"
    by (simp add: run_setup_def seed_generators_def Let_def
             split: option.split prod.split sum.split)
  then have r: "run L c gens = run L c gens'" by (simp add: run_def)
  have "make_Ss (random_seed L (cfg_seed c)) (cfg_n c) (cfg_k c) (cfg_n_tasks c)
              = Inr (Ss, py_gen st)
          \<and> info_Ss (info st) = Some Ss
          \<and> np_gen st = np_random_seed L (cfg_seed c)"
    if "run_setup L c gens = Inr (Ss, st)" for Ss st
    using that
    by (auto simp: run_setup_def seed_generators_def Let_def
             split: option.splits prod.splits sum.splits)
  with s r show ?thesis by blast
qed

section \<open>Concrete runs\<close>

text \<open>The theorems above, applied to runs of the model on explicit inputs.\<close>

theorem invalid_configuration_failures_witness:
  "run counting_library ((cfg 1 0)\<lparr>cfg_activation := ''GELU''\<rparr>)
       \<lparr>torch_gen = (\<lambda>i. 0), py_gen = (\<lambda>i. 0), np_gen = (\<lambda>i. 0)\<rparr>
     = Inl (AssertionError, empty_info)
   \<and> run counting_library ((cfg 1 0)\<lparr>cfg_k := 51\<rparr>)
       \<lparr>torch_gen = (\<lambda>i. 0), py_gen = (\<lambda>i. 0), np_gen = (\<lambda>i. 0)\<rparr>
     = Inl (ValueError, empty_info\<lparr>info_P := Some 15302, info_D := Some 10000\<rparr>)
   \<and> (\<exists>st. run_setup counting_library ((cfg 1 0)\<lparr>cfg_k := 51, cfg_n_tasks := 0\<rparr>)
       \<lparr>torch_gen = (\<lambda>i. 0), py_gen = (\<lambda>i. 0), np_gen = (\<lambda>i. 0)\<rparr> = Inr ([], st))"
  using invalid_configuration_failures
          [of "(cfg 1 0)\<lparr>cfg_activation := ''GELU''\<rparr>" counting_library
              "\<lparr>torch_gen = (\<lambda>i. 0), py_gen = (\<lambda>i. 0), np_gen = (\<lambda>i. 0)\<rparr>" ReLU]
        invalid_configuration_failures
          [of "(cfg 1 0)\<lparr>cfg_k := 51\<rparr>" counting_library
              "\<lparr>torch_gen = (\<lambda>i. 0), py_gen = (\<lambda>i. 0), np_gen = (\<lambda>i. 0)\<rparr>" ReLU]
        invalid_configuration_failures
          [of "(cfg 1 0)\<lparr>cfg_k := 51, cfg_n_tasks := 0\<rparr>" counting_library
              "\<lparr>torch_gen = (\<lambda>i. 0), py_gen = (\<lambda>i. 0), np_gen = (\<lambda>i. 0)\<rparr>" ReLU]
  by (simp add: cfg_def activation_class_def build_layers_deep)

theorem zero_log_freq_raises_witness:
  "(\<exists>Ss st. run_setup counting_library (cfg 500 0)
                \<lparr>torch_gen = (\<lambda>i. 0), py_gen = (\<lambda>i. 0), np_gen = (\<lambda>i. 0)\<rparr> = Inr (Ss, st)
       \<and> loop_body counting_library (cfg 500 0) Ss 0 st = Inl (ZeroDivisionError, info st)
       \<and> run counting_library (cfg 500 0)
                \<lparr>torch_gen = (\<lambda>i. 0), py_gen = (\<lambda>i. 0), np_gen = (\<lambda>i. 0)\<rparr>
            = Inl (ZeroDivisionError, info st)
       \<and> loss st = None
       \<and> accuracies (info st) = Some [] \<and> losses (info st) = Some []
       \<and> losses_subtasks (info st) = Some [] \<and> accuracies_subtasks (info st) = Some [])
   \<and> cfg_log_freq (cfg 500 0) = 0
   \<and> (\<exists>i. run counting_library (cfg 500 0)
                \<lparr>torch_gen = (\<lambda>i. 0), py_gen = (\<lambda>i. 0), np_gen = (\<lambda>i. 0)\<rparr>
            = Inl (ZeroDivisionError, i))"
  using zero_log_freq_raises
          [of "cfg 500 0" ReLU counting_library
              "\<lparr>torch_gen = (\<lambda>i. 0), py_gen = (\<lambda>i. 0), np_gen = (\<lambda>i. 0)\<rparr>" 500 0]
  by (simp add: cfg_def activation_class_def)

lemma run_setup_example:
  "case run_setup counting_library
       \<lparr>cfg_n_tasks = 2, cfg_n = 3, cfg_k = 2, cfg_alpha = 3 / 2, cfg_width = 4, cfg_depth = 2,
        cfg_activation = ''ReLU'', cfg_test_points = 3, cfg_test_points_per_task = 2,
        cfg_steps = 1, cfg_batch_size = 4, cfg_lr = 1 / 1000, cfg_log_freq = 1, cfg_seed = 0\<rparr>
       \<lparr>torch_gen = (\<lambda>i. 0), py_gen = (\<lambda>i. 0), np_gen = (\<lambda>i. 0)\<rparr> of
     Inr (Ss, st) \<Rightarrow> Ss = [[0, 2], [2, 1]]
   | Inl e \<Rightarrow> False"
  by code_simp

theorem seeded_runs_agree_witness:
  "run counting_library
       \<lparr>cfg_n_tasks = 2, cfg_n = 3, cfg_k = 2, cfg_alpha = 3 / 2, cfg_width = 4, cfg_depth = 2,
        cfg_activation = ''ReLU'', cfg_test_points = 3, cfg_test_points_per_task = 2,
        cfg_steps = 1, cfg_batch_size = 4, cfg_lr = 1 / 1000, cfg_log_freq = 1, cfg_seed = 0\<rparr>
       \<lparr>torch_gen = (\<lambda>i. 0), py_gen = (\<lambda>i. 0), np_gen = (\<lambda>i. 0)\<rparr>
     = run counting_library
       \<lparr>cfg_n_tasks = 2, cfg_n = 3, cfg_k = 2, cfg_alpha = 3 / 2, cfg_width = 4, cfg_depth = 2,
        cfg_activation = ''ReLU'', cfg_test_points = 3, cfg_test_points_per_task = 2,
        cfg_steps = 1, cfg_batch_size = 4, cfg_lr = 1 / 1000, cfg_log_freq = 1, cfg_seed = 0\<rparr>
       \<lparr>torch_gen = (\<lambda>i. 5 * i), py_gen = (\<lambda>i. i + 7), np_gen = (\<lambda>i. 3)\<rparr>
   \<and> (\<exists>st. run_setup counting_library
       \<lparr>cfg_n_tasks = 2, cfg_n = 3, cfg_k = 2, cfg_alpha = 3 / 2, cfg_width = 4, cfg_depth = 2,
        cfg_activation = ''ReLU'', cfg_test_points = 3, cfg_test_points_per_task = 2,
        cfg_steps = 1, cfg_batch_size = 4, cfg_lr = 1 / 1000, cfg_log_freq = 1, cfg_seed = 0\<rparr>
       \<lparr>torch_gen = (\<lambda>i. 0), py_gen = (\<lambda>i. 0), np_gen = (\<lambda>i. 0)\<rparr> = Inr ([[0, 2], [2, 1]], st)
      \<and> make_Ss (random_seed counting_library 0) 3 2 2 = Inr ([[0, 2], [2, 1]], py_gen st)
      \<and> info_Ss (info st) = Some [[0, 2], [2, 1]]
      \<and> np_gen st = np_random_seed counting_library 0)"
proof -
  let ?c = "\<lparr>cfg_n_tasks = 2, cfg_n = 3, cfg_k = 2, cfg_alpha = 3 / 2, cfg_width = 4, cfg_depth = 2,
        cfg_activation = ''ReLU'', cfg_test_points = 3, cfg_test_points_per_task = 2,
        cfg_steps = 1, cfg_batch_size = 4, cfg_lr = 1 / 1000, cfg_log_freq = 1, cfg_seed = 0\<rparr>"
  let ?g = "\<lparr>torch_gen = (\<lambda>i. 0), py_gen = (\<lambda>i. 0), np_gen = (\<lambda>i. 0)\<rparr>"
  let ?g' = "\<lparr>torch_gen = (\<lambda>i. 5 * i), py_gen = (\<lambda>i. i + 7), np_gen = (\<lambda>i. 3)\<rparr>"
  note th = seeded_runs_agree[of counting_library ?c ?g ?g']
  from run_setup_example obtain st where
    s: "run_setup counting_library ?c ?g = Inr ([[0, 2], [2, 1]], st)"
    by (auto split: sum.splits)
  from th s have "make_Ss (random_seed counting_library (cfg_seed ?c)) (cfg_n ?c) (cfg_k ?c)
                    (cfg_n_tasks ?c) = Inr ([[0, 2], [2, 1]], py_gen st)
          \<and> info_Ss (info st) = Some [[0, 2], [2, 1]]
          \<and> np_gen st = np_random_seed counting_library (cfg_seed ?c)"
    by blast
  then have "make_Ss (random_seed counting_library 0) 3 2 2 = Inr ([[0, 2], [2, 1]], py_gen st)
      \<and> info_Ss (info st) = Some [[0, 2], [2, 1]]
      \<and> np_gen st = np_random_seed counting_library 0"
    by simp
  with th s show ?thesis by blast
qed

lemma evaluate_example:
  "case evaluate counting_library
       \<lparr>cfg_n_tasks = 3, cfg_n = 3, cfg_k = 1, cfg_alpha = 3 / 2, cfg_width = 4, cfg_depth = 2,
        cfg_activation = ''ReLU'', cfg_test_points = 2, cfg_test_points_per_task = 1,
        cfg_steps = 1, cfg_batch_size = 4, cfg_lr = 1 / 1000, cfg_log_freq = 1, cfg_seed = 0\<rparr>
       [[0], [1], [2]]
       \<lparr>torch_gen = (\<lambda>i. i), py_gen = (\<lambda>i. i), np_gen = (\<lambda>i. i), mlp = 0,
        loss = Some (7, 7),
        info = empty_info\<lparr>accuracies := Some [], losses := Some [],
                 losses_subtasks := Some [], accuracies_subtasks := Some []\<rparr>\<rparr> of
     Inr st' \<Rightarrow> True
   | Inl e \<Rightarrow> False"
  by code_simp

theorem evaluate_records_stale_loss_witness:
  "(\<exists>e i. evaluate counting_library
       \<lparr>cfg_n_tasks = 3, cfg_n = 3, cfg_k = 1, cfg_alpha = 3 / 2, cfg_width = 4, cfg_depth = 2,
        cfg_activation = ''ReLU'', cfg_test_points = 2, cfg_test_points_per_task = 1,
        cfg_steps = 1, cfg_batch_size = 4, cfg_lr = 1 / 1000, cfg_log_freq = 1, cfg_seed = 0\<rparr>
       [[0], [1], [2]]
       \<lparr>torch_gen = (\<lambda>i. i), py_gen = (\<lambda>i. i), np_gen = (\<lambda>i. i), mlp = 0,
        loss = None,
        info = empty_info\<lparr>accuracies := Some [], losses := Some [],
                 losses_subtasks := Some [], accuracies_subtasks := Some []\<rparr>\<rparr> = Inl (e, i)
      \<and> losses i = Some [])
   \<and> (\<exists>st'. evaluate counting_library
       \<lparr>cfg_n_tasks = 3, cfg_n = 3, cfg_k = 1, cfg_alpha = 3 / 2, cfg_width = 4, cfg_depth = 2,
        cfg_activation = ''ReLU'', cfg_test_points = 2, cfg_test_points_per_task = 1,
        cfg_steps = 1, cfg_batch_size = 4, cfg_lr = 1 / 1000, cfg_log_freq = 1, cfg_seed = 0\<rparr>
       [[0], [1], [2]]
       \<lparr>torch_gen = (\<lambda>i. i), py_gen = (\<lambda>i. i), np_gen = (\<lambda>i. i), mlp = 0,
        loss = Some (7, 7),
        info = empty_info\<lparr>accuracies := Some [], losses := Some [],
                 losses_subtasks := Some [], accuracies_subtasks := Some []\<rparr>\<rparr> = Inr st'
      \<and> losses (info st') = Some [(7, 7)])
   \<and> (\<exists>e i. run counting_library
       \<lparr>cfg_n_tasks = 3, cfg_n = 3, cfg_k = 1, cfg_alpha = 3 / 2, cfg_width = 4, cfg_depth = 2,
        cfg_activation = ''ReLU'', cfg_test_points = 2, cfg_test_points_per_task = 1,
        cfg_steps = 1, cfg_batch_size = 4, cfg_lr = 1 / 1000, cfg_log_freq = 1, cfg_seed = 0\<rparr>
       \<lparr>torch_gen = (\<lambda>i. 0), py_gen = (\<lambda>i. 0), np_gen = (\<lambda>i. 0)\<rparr> = Inl (e, i)
      \<and> losses i \<in> {None, Some []})"
proof -
  let ?c = "\<lparr>cfg_n_tasks = 3, cfg_n = 3, cfg_k = 1, cfg_alpha = 3 / 2, cfg_width = 4, cfg_depth = 2,
        cfg_activation = ''ReLU'', cfg_test_points = 2, cfg_test_points_per_task = 1,
        cfg_steps = 1, cfg_batch_size = 4, cfg_lr = 1 / 1000, cfg_log_freq = 1, cfg_seed = 0\<rparr>"
  let ?i = "empty_info\<lparr>accuracies := Some [], losses := Some [],
                 losses_subtasks := Some [], accuracies_subtasks := Some []\<rparr> :: (nat \<times> nat) info"
  let ?st = "\<lparr>torch_gen = (\<lambda>i. i), py_gen = (\<lambda>i. i), np_gen = (\<lambda>i. i), mlp = 0 :: nat,
        loss = Some (7 :: nat, 7 :: nat), info = ?i\<rparr>"
  let ?g = "\<lparr>torch_gen = (\<lambda>i. 0), py_gen = (\<lambda>i. 0), np_gen = (\<lambda>i. 0)\<rparr>"
  note th = evaluate_records_stale_loss[of counting_library ?c "[[0], [1], [2]]" ?st ?g]
  have n: "?st\<lparr>loss := None\<rparr> = \<lparr>torch_gen = (\<lambda>i. i), py_gen = (\<lambda>i. i), np_gen = (\<lambda>i. i),
        mlp = 0, loss = None, info = ?i\<rparr>"
    and s: "?st\<lparr>loss := Some (7, 7)\<rparr> = ?st"
    and l: "losses (info ?st) = Some []" "append_to (losses (info ?st)) (7, 7) = Some [(7, 7)]"
    and p: "0 < cfg_steps ?c"
    by (simp_all add: append_to_def)
  from evaluate_example obtain st' where
    e: "evaluate counting_library ?c [[0], [1], [2]] ?st = Inr st'"
    by (auto split: sum.splits)
  note t1 = th[THEN conjunct1, unfolded n l(1)]
  note t2 = th[THEN conjunct2, THEN conjunct1, THEN spec[of _ "(7, 7)"], THEN spec[of _ st'],
               unfolded s l(2), THEN mp, OF e]
  note t3 = th[THEN conjunct2, THEN conjunct2, THEN mp, OF p]
  have "\<exists>st'. evaluate counting_library ?c [[0], [1], [2]] ?st = Inr st'
           \<and> losses (info st') = Some [(7, 7)]"
    using e t2 by (intro exI[of _ st'] conjI)
  with t1 t3 show ?thesis by (intro conjI)
qed

end
